theory Spec2Isabelle
  imports Main "HOL-Library.Word"
begin

section \<open>Data model of pl\_funcs.c\<close>

text \<open>
  The SQL-callable functions of \<^verbatim>\<open>pl_funcs.c\<close> work on PostgreSQL values: an \<^verbatim>\<open>Oid\<close> and a
  \<^verbatim>\<open>uint32\<close> are unsigned 32-bit integers, an \<^verbatim>\<open>int\<close> is a signed one (the same 32 bits, read
  with \<open>sint\<close>), and a \<^verbatim>\<open>Datum\<close> is an opaque encoded value, here a type variable \<open>'v\<close>.
\<close>

type_synonym Oid = "32 word"
type_synonym uint32 = "32 word"
type_synonym int32 = "32 word"

datatype PartType = PT_HASH | PT_RANGE

text \<open>
  Modelled from the spec: the struct \<^verbatim>\<open>RangeEntry\<close> is declared outside \<^verbatim>\<open>pl_funcs.c\<close>. The
  specification (3) gives it a child identifier and the bounds of the half-open interval
  \<open>[min, max)\<close>; the source reads the fields \<^verbatim>\<open>child_oid\<close>, \<^verbatim>\<open>min\<close> and \<^verbatim>\<open>max\<close> (the last
  two are renamed here, \<open>min\<close> and \<open>max\<close> being constants of HOL).
\<close>

record 'v RangeEntry =
  child_oid :: Oid
  min_re :: 'v
  max_re :: 'v

text \<open>
  Modelled from the spec: the struct \<^verbatim>\<open>PartRelationInfo\<close> and the macros
  \<^verbatim>\<open>PrelChildrenCount(prel)\<close> and \<^verbatim>\<open>PrelGetRangesArray(prel)\<close> are declared outside
  \<^verbatim>\<open>pl_funcs.c\<close>. The specification (3) gives the descriptor a strategy, an attribute type,
  the array of ranges and a child count, which for RANGE is the length of the array. The
  source compares the count with \<^verbatim>\<open>uint32\<close> values and prints it with \<^verbatim>\<open>%u\<close>: it is
  \<open>children_count\<close>, and the array is \<open>ranges\<close>.
\<close>

record 'v PartRelationInfo =
  parttype :: PartType
  atttype :: Oid
  children_count :: uint32
  ranges :: "'v RangeEntry list"

text \<open>
  Every failure of the source is an \<^verbatim>\<open>elog(ERROR, ...)\<close>, which leaves the function at once.
  The constructors carry the names of the specification's taxonomy:
  \<^item> \<open>NotPartitioned\<close>: "Relation ... is not partitioned by pg\_pathman";
  \<^item> \<open>NotRangePartitioned\<close>: "Relation ... is not partitioned by RANGE";
  \<^item> \<open>NoSuchPartition\<close>: "Relation ... has no partition ...";
  \<^item> \<open>PartitionNotFound\<close>: "Partition \#... does not exist (total amount is ...)";
  \<^item> \<open>InvalidIndex\<close>: "Negative indices other than -1 (last partition) are not allowed";
  \<^item> \<open>DdlError\<close>: a failure of the creation delegate \<^verbatim>\<open>create_partitions\<close>;
  \<^item> \<open>EmptyPartitionSet\<close> and \<open>InvalidPartitionCount\<close>: named by the specification only.

  An outcome is a returned value, a raised error, or the undefined behaviour of C (a read
  outside an array or of an uninitialised variable), which is no typed failure.
\<close>

datatype error =
  NotPartitioned | NotRangePartitioned | NoSuchPartition | PartitionNotFound
  | InvalidIndex | EmptyPartitionSet | InvalidPartitionCount | DdlError

datatype 'a outcome = Returns 'a | Raises error | Undefined_Behaviour

type_synonym 'v catalog = "Oid \<Rightarrow> 'v PartRelationInfo option"

text \<open>
  Modelled from the spec: \<^verbatim>\<open>get_pathman_relation_info\<close> is not in \<^verbatim>\<open>pl_funcs.c\<close>, which only
  tests its result against \<^verbatim>\<open>NULL\<close>. It is the catalog read \<^verbatim>\<open>load_descriptor(relation_id)\<close>
  of the specification: the descriptor snapshot of the relation, or nothing.
\<close>

definition get_pathman_relation_info :: "'v catalog \<Rightarrow> Oid \<Rightarrow> 'v PartRelationInfo option" where
  "get_pathman_relation_info cat parent_oid = cat parent_oid"

text \<open>\<^verbatim>\<open>ranges[i]\<close> for a C \<^verbatim>\<open>int\<close> or \<^verbatim>\<open>uint32\<close> index: outside the array there is no value.\<close>

definition array_read :: "'a list \<Rightarrow> int \<Rightarrow> 'a option" where
  "array_read xs i = (if 0 \<le> i \<and> i < int (length xs) then Some (xs ! nat i) else None)"


section \<open>The hash router\<close>

text \<open>
  Modelled from the spec: \<^verbatim>\<open>hash_to_part_index\<close> is not in \<^verbatim>\<open>pl_funcs.c\<close>. The specification
  (4.3) gives \<open>index = hash_value mod partition_count\<close> on unsigned 32-bit values, failing
  with \<open>InvalidPartitionCount\<close> if \<open>partition_count = 0\<close>.
\<close>

definition hash_to_part_index :: "uint32 \<Rightarrow> uint32 \<Rightarrow> uint32 outcome" where
  "hash_to_part_index hash_value partition_count =
     (if partition_count = 0 then Raises InvalidPartitionCount
      else Returns (hash_value mod partition_count))"

text \<open>\<^verbatim>\<open>get_hash_part_idx\<close>: the wrapper passes both \<^verbatim>\<open>uint32\<close> arguments on, in order.\<close>

definition get_hash_part_idx :: "uint32 \<Rightarrow> uint32 \<Rightarrow> uint32 outcome" where
  "get_hash_part_idx val part_count = hash_to_part_index val part_count"


section \<open>Range queries\<close>

text \<open>
  A comparison function filled in by \<^verbatim>\<open>fill_type_cmp_fmgr_info(&cmp_func, type_a, type_b)\<close>
  and called by \<^verbatim>\<open>FunctionCall2(&cmp_func, a, b)\<close>: negative, zero or positive. The lookup
  itself is outside \<^verbatim>\<open>pl_funcs.c\<close> and is a parameter \<open>fill_cmp\<close> of the functions that use
  it: from the two type identifiers to the comparison.
\<close>

type_synonym 'v cmp_func = "'v \<Rightarrow> 'v \<Rightarrow> int"

text \<open>The array of two elements \<^verbatim>\<open>{ ranges[i].min, ranges[i].max }\<close>, as a pair.\<close>

definition range_bounds :: "'v RangeEntry list \<Rightarrow> int \<Rightarrow> ('v \<times> 'v) outcome" where
  "range_bounds rs i =
     (case array_read rs i of
        None \<Rightarrow> Undefined_Behaviour
      | Some e \<Rightarrow> Returns (min_re e, max_re e))"

text \<open>
  \<^verbatim>\<open>get_range_by_part_oid\<close>: the loop \<^verbatim>\<open>for (i = 0; i < PrelChildrenCount(prel); i++)\<close>
  returns the bounds of the first entry with the given \<^verbatim>\<open>child_oid\<close>; the \<^verbatim>\<open>elog\<close> after
  the loop is reached when there is none.
\<close>

function part_oid_loop ::
  "'v RangeEntry list \<Rightarrow> uint32 \<Rightarrow> Oid \<Rightarrow> nat \<Rightarrow> ('v \<times> 'v) outcome" where
  "part_oid_loop rs cnt c i =
     (if i < unat cnt then
        (case array_read rs (int i) of
           None \<Rightarrow> Undefined_Behaviour
         | Some e \<Rightarrow>
             if child_oid e = c then Returns (min_re e, max_re e)
             else part_oid_loop rs cnt c (Suc i))
      else Raises NoSuchPartition)"
  by pat_completeness auto
termination
  by (relation "measure (\<lambda>(rs, cnt, c, i). unat cnt - i)") auto

definition get_range_by_part_oid :: "'v catalog \<Rightarrow> Oid \<Rightarrow> Oid \<Rightarrow> ('v \<times> 'v) outcome" where
  "get_range_by_part_oid cat parent_oid child =
     (case get_pathman_relation_info cat parent_oid of
        None \<Rightarrow> Raises NotPartitioned
      | Some prel \<Rightarrow> part_oid_loop (ranges prel) (children_count prel) child 0)"

text \<open>
  \<^verbatim>\<open>abs(idx)\<close> on a 32-bit \<^verbatim>\<open>int\<close>: the negation wraps, so that \<^verbatim>\<open>abs(INT_MIN)\<close> is
  \<^verbatim>\<open>INT_MIN\<close> and \<^verbatim>\<open>(uint32) abs(idx)\<close> is the magnitude of \<open>idx\<close> for every \<open>idx\<close>.
\<close>

definition abs_int32 :: "int32 \<Rightarrow> int32" where
  "abs_int32 x = (if sint x < 0 then - x else x)"

text \<open>
  \<^verbatim>\<open>get_range_by_idx\<close>: the bound check on \<^verbatim>\<open>(uint32) abs(idx)\<close> comes first (an unsigned
  comparison, as \<open>\<le>\<close> on words is); then \<open>-1\<close> becomes \<^verbatim>\<open>PrelChildrenCount(prel) - 1\<close>,
  any other negative index is refused, and \<^verbatim>\<open>ranges[idx]\<close> is read with \<open>idx\<close> as an \<^verbatim>\<open>int\<close>.
\<close>

definition get_range_by_idx :: "'v catalog \<Rightarrow> Oid \<Rightarrow> int32 \<Rightarrow> ('v \<times> 'v) outcome" where
  "get_range_by_idx cat parent_oid idx =
     (case get_pathman_relation_info cat parent_oid of
        None \<Rightarrow> Raises NotPartitioned
      | Some prel \<Rightarrow>
          if children_count prel \<le> abs_int32 idx then Raises PartitionNotFound
          else if idx = - 1 then range_bounds (ranges prel) (sint (children_count prel - 1))
          else if sint idx < - 1 then Raises InvalidIndex
          else range_bounds (ranges prel) (sint idx))"

text \<open>The test \<^verbatim>\<open>!prel\<close> on the pointer returned by the catalog read.\<close>

definition is_null :: "'a option \<Rightarrow> bool" where
  "is_null p = (case p of None \<Rightarrow> True | Some _ \<Rightarrow> False)"

text \<open>
  \<^verbatim>\<open>get_min_range_value\<close> and \<^verbatim>\<open>get_max_range_value\<close>. After the first \<^verbatim>\<open>if (!prel)\<close> the
  source has
  \<^verbatim>\<open>if (prel->parttype != PT_RANGE) if (!prel) elog(ERROR, "... is not partitioned by RANGE")\<close>:
  the inner test is on \<open>prel\<close> again, and is kept as written. The index of the last range
  is the \<^verbatim>\<open>uint32\<close> \<^verbatim>\<open>PrelChildrenCount(prel) - 1\<close>, which wraps at a count of 0.
\<close>

definition get_min_range_value :: "'v catalog \<Rightarrow> Oid \<Rightarrow> 'v outcome" where
  "get_min_range_value cat parent_oid =
     (let prel_ptr = get_pathman_relation_info cat parent_oid in
      case prel_ptr of
        None \<Rightarrow> Raises NotPartitioned
      | Some prel \<Rightarrow>
          if parttype prel \<noteq> PT_RANGE \<and> is_null prel_ptr then Raises NotRangePartitioned
          else (case array_read (ranges prel) 0 of
                  None \<Rightarrow> Undefined_Behaviour
                | Some e \<Rightarrow> Returns (min_re e)))"

definition get_max_range_value :: "'v catalog \<Rightarrow> Oid \<Rightarrow> 'v outcome" where
  "get_max_range_value cat parent_oid =
     (let prel_ptr = get_pathman_relation_info cat parent_oid in
      case prel_ptr of
        None \<Rightarrow> Raises NotPartitioned
      | Some prel \<Rightarrow>
          if parttype prel \<noteq> PT_RANGE \<and> is_null prel_ptr then Raises NotRangePartitioned
          else (case array_read (ranges prel) (uint (children_count prel - 1)) of
                  None \<Rightarrow> Undefined_Behaviour
                | Some e \<Rightarrow> Returns (max_re e)))"

text \<open>
  \<^verbatim>\<open>check_overlap\<close>: the loop compares \<open>p1\<close> with \<^verbatim>\<open>ranges[i].max\<close> by the first comparison
  function and \<open>p2\<close> with \<^verbatim>\<open>ranges[i].min\<close> by the second, and returns true at the first
  entry with \<^verbatim>\<open>c1 < 0 && c2 > 0\<close>.
\<close>

function overlap_loop ::
  "'v cmp_func \<Rightarrow> 'v cmp_func \<Rightarrow> 'v \<Rightarrow> 'v \<Rightarrow> 'v RangeEntry list \<Rightarrow> uint32 \<Rightarrow> nat \<Rightarrow> bool outcome"
  where
  "overlap_loop cmp_func_1 cmp_func_2 p1 p2 rs cnt i =
     (if i < unat cnt then
        (case array_read rs (int i) of
           None \<Rightarrow> Undefined_Behaviour
         | Some e \<Rightarrow>
             let c1 = cmp_func_1 p1 (max_re e);
                 c2 = cmp_func_2 p2 (min_re e)
             in if c1 < 0 \<and> c2 > 0 then Returns True
                else overlap_loop cmp_func_1 cmp_func_2 p1 p2 rs cnt (Suc i))
      else Returns False)"
  by pat_completeness auto
termination
  by (relation "measure (\<lambda>(c1, c2, p1, p2, rs, cnt, i). unat cnt - i)") auto

definition check_overlap ::
  "(Oid \<Rightarrow> Oid \<Rightarrow> 'v cmp_func) \<Rightarrow> 'v catalog \<Rightarrow> Oid \<Rightarrow> 'v \<Rightarrow> Oid \<Rightarrow> 'v \<Rightarrow> Oid \<Rightarrow> bool outcome"
  where
  "check_overlap fill_cmp cat parent_oid p1 p1_type p2 p2_type =
     (let prel_ptr = get_pathman_relation_info cat parent_oid in
      case prel_ptr of
        None \<Rightarrow> Raises NotPartitioned
      | Some prel \<Rightarrow>
          if parttype prel \<noteq> PT_RANGE \<and> is_null prel_ptr then Raises NotRangePartitioned
          else
            let cmp_func_1 = fill_cmp p1_type (atttype prel);
                cmp_func_2 = fill_cmp p2_type (atttype prel)
            in overlap_loop cmp_func_1 cmp_func_2 p1 p2 (ranges prel) (children_count prel) 0)"

text \<open>
  The three-way comparison of a linearly ordered type, for concrete runs (PostgreSQL's
  \<^verbatim>\<open>btint4cmp\<close> on integers).
\<close>

definition cmp_linorder :: "'v::linorder \<Rightarrow> 'v \<Rightarrow> int" where
  "cmp_linorder a b = (if a < b then - 1 else if a = b then 0 else 1)"


section \<open>The range search\<close>

text \<open>
  The search state. The source tests it for \<^verbatim>\<open>SEARCH_RANGEREL_FOUND\<close> and
  \<^verbatim>\<open>SEARCH_RANGEREL_GAP\<close>; whatever else the search may answer takes the last branch, and is
  the one state \<open>SEARCH_RANGEREL_OUT_OF_RANGE\<close> here (the specification's \<open>OutOfRange\<close>).
\<close>

datatype search_rangerel_result =
  SEARCH_RANGEREL_OUT_OF_RANGE | SEARCH_RANGEREL_GAP | SEARCH_RANGEREL_FOUND

text \<open>
  \<^verbatim>\<open>search_range_partition_eq(value, &cmp_func, prel, &found_rentry)\<close> is called by
  \<^verbatim>\<open>find_or_create_range_partition\<close> and defined outside \<^verbatim>\<open>pl_funcs.c\<close>. The coordinator
  below takes it as a parameter of this type: from the value, the comparison and the
  descriptor to the search state and the entry written to \<^verbatim>\<open>found_rentry\<close>, if any.
\<close>

type_synonym 'v range_search =
  "'v \<Rightarrow> 'v cmp_func \<Rightarrow> 'v PartRelationInfo \<Rightarrow> search_rangerel_result \<times> 'v RangeEntry option"

text \<open>
  Modelled from the spec: the body of \<^verbatim>\<open>search_range_partition_eq\<close> is missing; the
  specification (4.2) describes it as \<open>find_owner\<close>, a binary search over \<open>ranges\<close> with the
  comparator. An entry owns the half-open interval from its \<open>min\<close> (inclusive) to its \<open>max\<close>
  (exclusive). The search of the index interval \<open>[lo, hi)\<close> ends on the owner's index or
  on the position at which an owner would have to stand. It starts from \<open>[0, length rs)\<close>,
  so that \<open>mid\<close> is always an index of the array.
\<close>

datatype probe = Hit nat | Miss nat

function range_bsearch ::
  "'v cmp_func \<Rightarrow> 'v \<Rightarrow> 'v RangeEntry list \<Rightarrow> nat \<Rightarrow> nat \<Rightarrow> probe" where
  "range_bsearch cmp v rs lo hi =
     (if lo < hi then
        (let mid = (lo + hi) div 2 in
         if cmp v (min_re (rs ! mid)) < 0 then range_bsearch cmp v rs lo mid
         else if 0 \<le> cmp v (max_re (rs ! mid)) then range_bsearch cmp v rs (Suc mid) hi
         else Hit mid)
      else Miss lo)"
  by pat_completeness auto
termination
  by (relation "measure (\<lambda>(cmp, v, rs, lo, hi). hi - lo)") auto

text \<open>
  Modelled from the spec: the search result of the specification (3), \<open>Found\<close> carrying the
  owning entry (whose \<open>child_oid\<close> is the specification's \<open>child_id\<close>). A value below the
  first entry or above the last is \<open>OutOfRange\<close>; one between the entries \<open>i\<close> and \<open>i + 1\<close> is
  \<open>Gap i (i + 1)\<close>. With no entry at all the result is \<open>OutOfRange\<close> (the specification
  does not say which side; the model answers \<open>below_first\<close>).
\<close>

datatype side = below_first | above_last

datatype 'v SearchResult = Found "'v RangeEntry" | Gap nat nat | OutOfRange side

definition find_owner :: "'v cmp_func \<Rightarrow> 'v RangeEntry list \<Rightarrow> 'v \<Rightarrow> 'v SearchResult" where
  "find_owner cmp rs v =
     (case range_bsearch cmp v rs 0 (length rs) of
        Hit i \<Rightarrow> Found (rs ! i)
      | Miss p \<Rightarrow>
          if p = 0 then OutOfRange below_first
          else if p = length rs then OutOfRange above_last
          else Gap (p - 1) p)"

text \<open>
  Modelled from the spec: \<^verbatim>\<open>search_range_partition_eq\<close> as \<open>find_owner\<close> on the descriptor's
  ranges, answering with the three search states the source tests for.
\<close>

definition search_range_partition_eq :: "'v range_search" where
  "search_range_partition_eq val cmp prel =
     (case find_owner cmp (ranges prel) val of
        Found e \<Rightarrow> (SEARCH_RANGEREL_FOUND, Some e)
      | Gap i j \<Rightarrow> (SEARCH_RANGEREL_GAP, None)
      | OutOfRange sd \<Rightarrow> (SEARCH_RANGEREL_OUT_OF_RANGE, None))"

text \<open>
  The invariant of a RANGE descriptor (specification, 3): every entry has \<open>min < max\<close> and
  each entry's \<open>max\<close> is at most the next entry's \<open>min\<close>.
\<close>

fun ranges_sorted :: "('v::linorder) RangeEntry list \<Rightarrow> bool" where
  "ranges_sorted [] = True"
| "ranges_sorted [e] = (min_re e < max_re e)"
| "ranges_sorted (e # f # rs) = (min_re e < max_re e \<and> max_re e \<le> min_re f \<and> ranges_sorted (f # rs))"

text \<open>A comparison function that agrees with the order of the partitioning attribute.\<close>

definition cmp_agrees :: "('v::linorder) cmp_func \<Rightarrow> bool" where
  "cmp_agrees cmp = (\<forall>a b. (cmp a b < 0) = (a < b) \<and> (cmp a b = 0) = (a = b))"


section \<open>The partition creation coordinator\<close>

text \<open>
  The two lightweight locks of \<^verbatim>\<open>pmstate\<close>, and what can be observed of a call: lock
  acquisitions, lock releases and calls of the creation delegate, in order.
\<close>

datatype LWLock = load_config_lock | edit_partitions_lock

datatype 'v event =
  Acquire LWLock | Release LWLock | Create_partitions Oid 'v Oid

text \<open>
  The state a call runs in: the partitioning metadata as the catalog holds it now, the
  locks this backend holds, and the events so far.
\<close>

record 'v backend =
  pathman_config :: "'v catalog"
  held_lwlocks :: "LWLock list"
  trace :: "'v event list"

text \<open>
  \<^verbatim>\<open>LWLockAcquire(lock, LW_EXCLUSIVE)\<close> waits until no other backend holds the lock. What
  the other backends have registered in the catalog by then is the parameter \<open>others\<close>.
\<close>

definition LWLockAcquire :: "('v catalog \<Rightarrow> 'v catalog) \<Rightarrow> LWLock \<Rightarrow> 'v backend \<Rightarrow> 'v backend" where
  "LWLockAcquire others l w =
     w\<lparr>pathman_config := others (pathman_config w),
       held_lwlocks := l # held_lwlocks w,
       trace := trace w @ [Acquire l]\<rparr>"

definition LWLockRelease :: "LWLock \<Rightarrow> 'v backend \<Rightarrow> 'v backend" where
  "LWLockRelease l w =
     w\<lparr>held_lwlocks := remove1 l (held_lwlocks w), trace := trace w @ [Release l]\<rparr>"

text \<open>
  The creation delegate \<^verbatim>\<open>create_partitions(parent_oid, value, value_type)\<close> is outside
  \<^verbatim>\<open>pl_funcs.c\<close> and is a parameter: on the catalog as it is, it fails with an error or
  returns the new child and the catalog with the child registered. A failure is an
  \<^verbatim>\<open>elog(ERROR, ...)\<close>, as everywhere in the source: control leaves the caller at the call.
\<close>

type_synonym 'v creator = "Oid \<Rightarrow> 'v \<Rightarrow> Oid \<Rightarrow> 'v catalog \<Rightarrow> error + (Oid \<times> 'v catalog)"

definition create_partitions_call ::
  "'v creator \<Rightarrow> Oid \<Rightarrow> 'v \<Rightarrow> Oid \<Rightarrow> 'v backend \<Rightarrow> (error + Oid) \<times> 'v backend" where
  "create_partitions_call create_partitions parent_oid val value_type w =
     (let w' = w\<lparr>trace := trace w @ [Create_partitions parent_oid val value_type]\<rparr> in
      case create_partitions parent_oid val value_type (pathman_config w) of
        Inl e \<Rightarrow> (Inl e, w')
      | Inr (child, cat') \<Rightarrow> (Inr child, w'\<lparr>pathman_config := cat'\<rparr>))"

text \<open>
  \<^verbatim>\<open>PG_RETURN_OID(found_rentry.child_oid)\<close>: \<^verbatim>\<open>found_rentry\<close> is a local variable without
  an initial value, written by the search only.
\<close>

definition return_child_oid :: "'v RangeEntry option \<Rightarrow> Oid option outcome" where
  "return_child_oid found_rentry =
     (case found_rentry of
        None \<Rightarrow> Undefined_Behaviour
      | Some e \<Rightarrow> Returns (Some (child_oid e)))"

definition write_rentry :: "'a option \<Rightarrow> 'a option \<Rightarrow> 'a option" where
  "write_rentry old written = (case written of None \<Rightarrow> old | Some e \<Rightarrow> Some e)"

text \<open>
  \<^verbatim>\<open>find_or_create_range_partition\<close>. The result is an \<^verbatim>\<open>Oid\<close> or the SQL null (\<open>None\<close>).
  The descriptor \<open>prel\<close> is read once, at the top, and both searches run on it. It is a
  snapshot: what other backends register while this one waits for a lock changes the
  catalog, not \<open>prel\<close> (specification, 3 and 5; the source notes "no new data" at the
  second search).
\<close>

definition find_or_create_range_partition ::
  "'v range_search \<Rightarrow> 'v creator \<Rightarrow> (Oid \<Rightarrow> Oid \<Rightarrow> 'v cmp_func) \<Rightarrow> ('v catalog \<Rightarrow> 'v catalog)
   \<Rightarrow> Oid \<Rightarrow> 'v \<Rightarrow> Oid \<Rightarrow> 'v backend \<Rightarrow> Oid option outcome \<times> 'v backend" where
  "find_or_create_range_partition search create_partitions fill_cmp others
       parent_oid val value_type w =
     (case get_pathman_relation_info (pathman_config w) parent_oid of
        None \<Rightarrow> (Returns None, w)
      | Some prel \<Rightarrow>
          let cmp_func = fill_cmp value_type (atttype prel);
              (search_state, written) = search val cmp_func prel;
              found_rentry = write_rentry None written
          in
          if search_state = SEARCH_RANGEREL_FOUND then (return_child_oid found_rentry, w)
          else if search_state = SEARCH_RANGEREL_GAP then (Returns None, w)
          else
            let w1 = LWLockAcquire others load_config_lock w;
                w2 = LWLockAcquire others edit_partitions_lock w1;
                (search_state2, written2) = search val cmp_func prel;
                found_rentry2 = write_rentry found_rentry written2
            in
            if search_state2 = SEARCH_RANGEREL_FOUND then
              (let w3 = LWLockRelease load_config_lock w2;
                   w4 = LWLockRelease edit_partitions_lock w3
               in (return_child_oid found_rentry2, w4))
            else
              (case create_partitions_call create_partitions parent_oid val value_type w2 of
                 (Inl e, w3) \<Rightarrow> (Raises e, w3)
               | (Inr child, w3) \<Rightarrow>
                   let w4 = LWLockRelease load_config_lock w3;
                       w5 = LWLockRelease edit_partitions_lock w4
                   in (Returns (Some child), w5)))"


section \<open>Concrete descriptors\<close>

text \<open>
  The relation of the specification's scenarios: the ranges \<open>[0,10)\<close>, \<open>[10,20)\<close> and
  \<open>[30,40)\<close> over integers, in a catalog that knows the one relation 16384.
\<close>

definition three_ranges :: "int RangeEntry list" where
  "three_ranges =
     [\<lparr>child_oid = 1001, min_re = 0, max_re = 10\<rparr>,
      \<lparr>child_oid = 1002, min_re = 10, max_re = 20\<rparr>,
      \<lparr>child_oid = 1003, min_re = 30, max_re = 40\<rparr>]"

definition two_ranges :: "int RangeEntry list" where
  "two_ranges =
     [\<lparr>child_oid = 1001, min_re = 0, max_re = 10\<rparr>,
      \<lparr>child_oid = 1002, min_re = 10, max_re = 20\<rparr>]"

definition one_range :: "int RangeEntry list" where
  "one_range = [\<lparr>child_oid = 1001, min_re = 0, max_re = 10\<rparr>]"

definition range_prel :: "int RangeEntry list \<Rightarrow> int PartRelationInfo" where
  "range_prel rs =
     \<lparr>parttype = PT_RANGE, atttype = 23, children_count = of_nat (length rs), ranges = rs\<rparr>"

definition one_relation :: "int PartRelationInfo \<Rightarrow> int catalog" where
  "one_relation prel = (\<lambda>relid. if relid = 16384 then Some prel else None)"


text \<open>
  A backend that holds no lock, a creation delegate that reports the new child 2000, and
  the comparison lookup of a catalog whose types are all integers.
\<close>

definition idle_backend :: "int catalog \<Rightarrow> int backend" where
  "idle_backend cat = \<lparr>pathman_config = cat, held_lwlocks = [], trace = []\<rparr>"

definition new_child :: "int creator" where
  "new_child parent_oid val value_type cat = Inr (2000, cat)"

definition int_cmp :: "Oid \<Rightarrow> Oid \<Rightarrow> int cmp_func" where
  "int_cmp type_a type_b = cmp_linorder"

text \<open>
  What other backends register while this one waits for a lock: the second partition,
  \<open>[10,20)\<close>. And a creation delegate that fails.
\<close>

definition registers_second :: "int catalog \<Rightarrow> int catalog" where
  "registers_second cat = one_relation (range_prel two_ranges)"

definition failing_ddl :: "int creator" where
  "failing_ddl parent_oid val value_type cat = Inl DdlError"

text \<open>
  Two callers racing on the gap above \<open>[0,10)\<close> with the value 15. Both read the
  descriptor before either takes the locks. Caller A takes them first; caller B waits, and
  what it finds registered when it gets the locks is the catalog A left. The delegate
  creates \<open>[10,20)\<close> and numbers the children as they come.
\<close>

definition numbering_ddl :: "int creator" where
  "numbering_ddl parent_oid val value_type cat =
     (case cat parent_oid of
        None \<Rightarrow> Inl DdlError
      | Some prel \<Rightarrow>
          let child = 2000 + children_count prel
          in Inr (child,
                  cat(parent_oid \<mapsto> prel\<lparr>children_count := children_count prel + 1,
                     ranges := ranges prel @ [\<lparr>child_oid = child, min_re = 10, max_re = 20\<rparr>]\<rparr>)))"

definition racer_start :: "int backend" where
  "racer_start = idle_backend (one_relation (range_prel one_range))"

definition racer_A :: "Oid option outcome \<times> int backend" where
  "racer_A = find_or_create_range_partition search_range_partition_eq numbering_ddl int_cmp id
       16384 15 23 racer_start"

definition racer_B :: "Oid option outcome \<times> int backend" where
  "racer_B = find_or_create_range_partition search_range_partition_eq numbering_ddl int_cmp
       (\<lambda>cat. pathman_config (snd racer_A)) 16384 15 23 racer_start"

section \<open>Theorems\<close>

text \<open>The loops are unfolded one step at a time, where a proof asks for it.\<close>

declare overlap_loop.simps [simp del] part_oid_loop.simps [simp del] range_bsearch.simps [simp del]


subsection \<open>Hash routing\<close>

text \<open>
  C8. For every unsigned 32-bit hash value and every partition count \<open>n > 0\<close> the hash router
  returns \<open>h mod n\<close>, a value of \<open>[0, n)\<close>; for \<open>n = 0\<close> it fails with \<open>InvalidPartitionCount\<close>.
\<close>

theorem get_hash_part_idx_mod:
  "(part_count \<noteq> 0 \<longrightarrow>
      get_hash_part_idx val part_count = Returns (val mod part_count)
      \<and> unat (val mod part_count) = unat val mod unat part_count
      \<and> unat (val mod part_count) < unat part_count)
   \<and> get_hash_part_idx val 0 = Raises InvalidPartitionCount"
proof -
  have "unat part_count \<noteq> 0" if "part_count \<noteq> 0"
    using that by (simp add: unat_eq_0)
  then show ?thesis
    by (simp add: get_hash_part_idx_def hash_to_part_index_def unat_mod)
qed

theorem get_hash_part_idx_mod_witness:
  "(5 :: uint32) \<noteq> 0 \<and> get_hash_part_idx 17 5 = Returns 2 \<and> unat ((17 :: uint32) mod 5) < unat (5 :: uint32)
   \<and> get_hash_part_idx 17 0 = Raises InvalidPartitionCount"
  using get_hash_part_idx_mod [of 5 17] by simp


subsection \<open>32-bit arithmetic\<close>

text \<open>Signed reading, negation and predecessor of a 32-bit word, in terms of \<open>uint\<close>.\<close>

lemma uint32_bounds: "0 \<le> uint (x :: 32 word) \<and> uint x < 4294967296"
  using uint_lt2p [of x] by simp

lemma mod32_up: "- 4294967296 \<le> k \<Longrightarrow> k < 0 \<Longrightarrow> k mod 4294967296 = k + (4294967296 :: int)"
  by (rule int_mod_pos_eq [where q = "- 1"]) simp_all

lemma mod32_down: "4294967296 \<le> k \<Longrightarrow> k < 8589934592 \<Longrightarrow> k mod 4294967296 = k - (4294967296 :: int)"
  by (rule int_mod_pos_eq [where q = 1]) simp_all

lemma mod32_id: "0 \<le> k \<Longrightarrow> k < 4294967296 \<Longrightarrow> k mod 4294967296 = (k :: int)"
  by simp

lemma sint32: "sint (x :: 32 word) = (if uint x < 2147483648 then uint x else uint x - 4294967296)"
proof -
  have eq: "sint x = (uint x + 2147483648) mod 4294967296 - 2147483648"
    by (simp add: sint_uint signed_take_bit_eq_take_bit_shift take_bit_eq_mod)
  show ?thesis
  proof (cases "uint x < 2147483648")
    case True
    then show ?thesis
      using uint32_bounds [of x] by (simp add: eq mod32_id)
  next
    case False
    then show ?thesis
      using uint32_bounds [of x] by (simp add: eq mod32_down)
  qed
qed

lemma uminus32: "uint (- x :: 32 word) = (if uint x = 0 then 0 else 4294967296 - uint x)"
proof -
  have eq: "uint (- x) = (- uint x) mod 4294967296"
    by (simp add: uint_word_ariths)
  show ?thesis
  proof (cases "uint x = 0")
    case True
    then show ?thesis by (simp add: eq)
  next
    case False
    have "0 \<le> uint x" by simp
    with False have "- uint x mod 4294967296 = - uint x + 4294967296"
      using uint32_bounds [of x] by (intro mod32_up) linarith+
    with False show ?thesis by (simp add: eq)
  qed
qed

lemma pred32: "uint (x - 1 :: 32 word) = (if uint x = 0 then 4294967295 else uint x - 1)"
proof -
  have eq: "uint (x - 1) = (uint x - 1) mod 4294967296"
    by (simp add: uint_word_ariths)
  show ?thesis
  proof (cases "uint x = 0")
    case True
    then show ?thesis by (simp add: eq)
  next
    case False
    have "0 \<le> uint x" by simp
    with False have "(uint x - 1) mod 4294967296 = uint x - 1"
      using uint32_bounds [of x] by (intro mod32_id) linarith+
    with False show ?thesis by (simp add: eq)
  qed
qed


lemma uint_m1_32: "uint (- 1 :: 32 word) = 4294967295"
  by (simp add: uminus32)

lemma eq_m1_32: "(x = (- 1 :: 32 word)) = (uint x = 4294967295)"
  by (simp add: word_uint_eq_iff uint_m1_32)

lemma count_uint: "unat (c :: 32 word) = n \<Longrightarrow> uint c = int n"
  by (simp add: uint_nat)


subsection \<open>Bounds by index\<close>

text \<open>
  C7, as stated: every negative index other than \<open>-1\<close> fails with \<open>InvalidIndex\<close>. With two
  partitions the index \<open>-2\<close> fails with \<open>PartitionNotFound\<close> instead: the bound check on
  \<^verbatim>\<open>abs(idx)\<close> comes before the test for a negative index.
\<close>

theorem get_range_by_idx_counterexample:
  "get_range_by_idx (one_relation (range_prel two_ranges)) 16384 (- 2)
     = Raises PartitionNotFound
   \<and> get_range_by_idx (one_relation (range_prel two_ranges)) 16384 (- 2)
     \<noteq> Raises InvalidIndex"
  by (simp add: get_range_by_idx_def get_pathman_relation_info_def one_relation_def
      range_prel_def two_ranges_def abs_int32_def)


text \<open>
  With a single partition \<^verbatim>\<open>abs(-1) >= 1\<close>, and the index \<open>-1\<close> is refused although the last
  partition, at index 0, exists.
\<close>

lemma get_range_by_idx_single_partition:
  "get_range_by_idx (one_relation (range_prel one_range)) 16384 (- 1)
     = Raises PartitionNotFound
   \<and> get_range_by_idx (one_relation (range_prel one_range)) 16384 0
     = Returns (0, 10)"
  by (simp add: get_range_by_idx_def get_pathman_relation_info_def one_relation_def
      range_prel_def one_range_def abs_int32_def range_bounds_def array_read_def)


text \<open>
  C7, amended. For every descriptor whose count is the length of its range array: with at
  least two partitions the index \<open>-1\<close> returns the same pair as the index
  \<open>child_count - 1\<close>, the bounds of the last range; a negative index other than \<open>-1\<close>
  fails, with \<open>PartitionNotFound\<close> when its magnitude is at least the count and with
  \<open>InvalidIndex\<close> otherwise; a non-negative index that is at least the count fails with
  \<open>PartitionNotFound\<close>.
\<close>

theorem get_range_by_idx_amended:
  "get_pathman_relation_info cat parent_oid = Some prel \<and> unat (children_count prel) = length (ranges prel) \<longrightarrow>
     (2 \<le> length (ranges prel) \<and> length (ranges prel) \<le> 2147483648 \<longrightarrow>
        get_range_by_idx cat parent_oid (- 1) = get_range_by_idx cat parent_oid (children_count prel - 1)
        \<and> get_range_by_idx cat parent_oid (- 1)
            = Returns (min_re (last (ranges prel)), max_re (last (ranges prel))))
     \<and> (sint idx < - 1 \<longrightarrow>
          get_range_by_idx cat parent_oid idx
            = Raises (if int (length (ranges prel)) \<le> \<bar>sint idx\<bar> then PartitionNotFound else InvalidIndex))
     \<and> (0 \<le> sint idx \<and> int (length (ranges prel)) \<le> sint idx \<longrightarrow>
          get_range_by_idx cat parent_oid idx = Raises PartitionNotFound)"
proof (intro impI, elim conjE)
  assume cat: "get_pathman_relation_info cat parent_oid = Some prel"
    and cnt: "unat (children_count prel) = length (ranges prel)"
  let ?rs = "ranges prel" and ?c = "children_count prel"
  have uc: "uint ?c = int (length ?rs)"
    using cnt by (rule count_uint)
  have a: "get_range_by_idx cat parent_oid (- 1) = get_range_by_idx cat parent_oid (?c - 1)
        \<and> get_range_by_idx cat parent_oid (- 1) = Returns (min_re (last ?rs), max_re (last ?rs))"
    if "2 \<le> length ?rs" "length ?rs \<le> 2147483648"
  proof -
    have ne: "?rs \<noteq> []" using that by auto
    have up: "uint (?c - 1) = int (length ?rs) - 1"
      using that uc ne by (simp add: pred32)
    have sp: "sint (?c - 1) = int (length ?rs) - 1"
      using that up by (simp add: sint32)
    have rd: "range_bounds ?rs (sint (?c - 1)) = Returns (min_re (last ?rs), max_re (last ?rs))"
      using that ne by (simp add: sp range_bounds_def array_read_def last_conv_nth nat_diff_distrib)
    have l: "get_range_by_idx cat parent_oid (- 1) = range_bounds ?rs (sint (?c - 1))"
      using that cat uc
      by (simp add: get_range_by_idx_def get_pathman_relation_info_def abs_int32_def word_le_def)
    have r: "get_range_by_idx cat parent_oid (?c - 1) = range_bounds ?rs (sint (?c - 1))"
      using that cat uc up sp ne
      by (simp add: get_range_by_idx_def get_pathman_relation_info_def abs_int32_def word_le_def
          eq_m1_32)
    show ?thesis by (simp add: l r rd)
  qed
  have b: "get_range_by_idx cat parent_oid idx
      = Raises (if int (length ?rs) \<le> \<bar>sint idx\<bar> then PartitionNotFound else InvalidIndex)"
    if "sint idx < - 1"
  proof -
    have hi: "\<not> uint idx < 2147483648"
    proof
      assume "uint idx < 2147483648"
      then have "sint idx = uint idx" by (simp add: sint32)
      moreover have "0 \<le> uint idx" by simp
      ultimately show False using that by linarith
    qed
    then have s: "sint idx = uint idx - 4294967296"
      by (simp add: sint32)
    have nz: "uint idx \<noteq> 0" using hi by simp
    have m: "uint (- idx) = \<bar>sint idx\<bar>"
      using that nz s by (simp add: uminus32)
    have n1: "idx \<noteq> - 1"
      using that s by (simp add: eq_m1_32)
    show ?thesis
      using that cat uc m n1
      by (simp add: get_range_by_idx_def get_pathman_relation_info_def abs_int32_def word_le_def)
  qed
  have c: "get_range_by_idx cat parent_oid idx = Raises PartitionNotFound"
    if "0 \<le> sint idx \<and> int (length ?rs) \<le> sint idx"
  proof -
    have s: "sint idx = uint idx"
    proof (rule ccontr)
      assume "sint idx \<noteq> uint idx"
      then have "sint idx = uint idx - 4294967296"
        by (simp add: sint32 split: if_splits)
      then show False using that uint32_bounds [of idx] by linarith
    qed
    show ?thesis
      using that cat uc s
      by (simp add: get_range_by_idx_def get_pathman_relation_info_def abs_int32_def word_le_def)
  qed
  from a b c show "(2 \<le> length (ranges prel) \<and> length (ranges prel) \<le> 2147483648 \<longrightarrow>
        get_range_by_idx cat parent_oid (- 1) = get_range_by_idx cat parent_oid (children_count prel - 1)
        \<and> get_range_by_idx cat parent_oid (- 1)
            = Returns (min_re (last (ranges prel)), max_re (last (ranges prel))))
     \<and> (sint idx < - 1 \<longrightarrow>
          get_range_by_idx cat parent_oid idx
            = Raises (if int (length (ranges prel)) \<le> \<bar>sint idx\<bar> then PartitionNotFound else InvalidIndex))
     \<and> (0 \<le> sint idx \<and> int (length (ranges prel)) \<le> sint idx \<longrightarrow>
          get_range_by_idx cat parent_oid idx = Raises PartitionNotFound)"
    by blast
qed


theorem get_range_by_idx_amended_witness:
  "get_range_by_idx (one_relation (range_prel three_ranges)) 16384 (- 1) = Returns (30, 40)
   \<and> get_range_by_idx (one_relation (range_prel three_ranges)) 16384 2 = Returns (30, 40)
   \<and> get_range_by_idx (one_relation (range_prel three_ranges)) 16384 (- 2) = Raises InvalidIndex
   \<and> get_range_by_idx (one_relation (range_prel three_ranges)) 16384 (- 4) = Raises PartitionNotFound
   \<and> get_range_by_idx (one_relation (range_prel three_ranges)) 16384 5 = Raises PartitionNotFound"
  using get_range_by_idx_amended [of "one_relation (range_prel three_ranges)" 16384
      "range_prel three_ranges" "- 2"]
    get_range_by_idx_amended [of "one_relation (range_prel three_ranges)" 16384
      "range_prel three_ranges" "- 4"]
    get_range_by_idx_amended [of "one_relation (range_prel three_ranges)" 16384
      "range_prel three_ranges" 5]
  by (simp add: get_pathman_relation_info_def one_relation_def range_prel_def three_ranges_def)



subsection \<open>First minimum and last maximum\<close>

text \<open>
  C5, as stated: with no ranges both functions fail with \<open>EmptyPartitionSet\<close>. The source
  has no such test: on a RANGE descriptor without ranges \<^verbatim>\<open>ranges[0]\<close> and
  \<^verbatim>\<open>ranges[0u - 1]\<close> are read outside the array.
\<close>

theorem global_min_max_counterexample:
  "get_min_range_value (one_relation (range_prel [])) 16384 = Undefined_Behaviour
   \<and> get_max_range_value (one_relation (range_prel [])) 16384 = Undefined_Behaviour
   \<and> get_min_range_value (one_relation (range_prel [])) 16384 \<noteq> Raises EmptyPartitionSet
   \<and> get_max_range_value (one_relation (range_prel [])) 16384 \<noteq> Raises EmptyPartitionSet"
  by (simp add: get_min_range_value_def get_max_range_value_def get_pathman_relation_info_def
      one_relation_def range_prel_def array_read_def is_null_def uint_m1_32)




text \<open>
  The test for the strategy is never taken: its \<^verbatim>\<open>elog\<close> stands under a second
  \<^verbatim>\<open>if (!prel)\<close>, which is false once the first has passed. On a HASH descriptor the
  functions read whatever the range array holds.
\<close>

lemma overlap_loop_not_raises:
  "overlap_loop cmp_func_1 cmp_func_2 p1 p2 rs cnt i \<noteq> Raises e"
  by (induction cmp_func_1 cmp_func_2 p1 p2 rs cnt i rule: overlap_loop.induct)
    (subst overlap_loop.simps, simp add: Let_def split: option.splits)

lemma range_strategy_check_is_dead:
  "get_min_range_value cat parent_oid \<noteq> Raises NotRangePartitioned
   \<and> get_max_range_value cat parent_oid \<noteq> Raises NotRangePartitioned
   \<and> check_overlap fill_cmp cat parent_oid p1 p1_type p2 p2_type \<noteq> Raises NotRangePartitioned"
  by (simp add: get_min_range_value_def get_max_range_value_def check_overlap_def is_null_def
      overlap_loop_not_raises Let_def split: option.splits)

lemma hash_relation_min_max:
  "get_min_range_value (one_relation ((range_prel three_ranges)\<lparr>parttype := PT_HASH\<rparr>)) 16384 = Returns 0
   \<and> get_max_range_value (one_relation ((range_prel three_ranges)\<lparr>parttype := PT_HASH\<rparr>)) 16384 = Returns 40"
  by (simp add: get_min_range_value_def get_max_range_value_def get_pathman_relation_info_def
      one_relation_def range_prel_def three_ranges_def array_read_def is_null_def)

lemma nat_pred: "nat (int n - 1) = n - Suc 0"
  by simp


text \<open>
  C5, amended. For a RANGE descriptor (whose count is the length of its range array): with
  at least one range the functions return \<open>ranges[0].min\<close> and \<open>ranges[last].max\<close>; with
  no range they raise no failure (the read outside the array is undefined).
\<close>

theorem global_min_max_amended:
  "get_pathman_relation_info cat parent_oid = Some prel \<and> parttype prel = PT_RANGE
   \<and> unat (children_count prel) = length (ranges prel) \<longrightarrow>
     (ranges prel \<noteq> [] \<longrightarrow>
        get_min_range_value cat parent_oid = Returns (min_re (ranges prel ! 0))
        \<and> get_max_range_value cat parent_oid = Returns (max_re (last (ranges prel))))
     \<and> (ranges prel = [] \<longrightarrow>
        get_min_range_value cat parent_oid = Undefined_Behaviour
        \<and> get_max_range_value cat parent_oid = Undefined_Behaviour)"
proof (intro impI, elim conjE)
  assume cat: "get_pathman_relation_info cat parent_oid = Some prel"
    and cnt: "unat (children_count prel) = length (ranges prel)"
  let ?rs = "ranges prel" and ?c = "children_count prel"
  have uc: "uint ?c = int (length ?rs)"
    using cnt by (rule count_uint)
  have up: "uint (?c - 1) = (if ?rs = [] then 4294967295 else int (length ?rs) - 1)"
    using uc by (simp add: pred32)
  have len: "int (length ?rs) < 4294967296"
    using uint32_bounds [of ?c] uc by simp
  have mn: "get_min_range_value cat parent_oid
      = (if ?rs = [] then Undefined_Behaviour else Returns (min_re (?rs ! 0)))"
    using cat
    by (simp add: get_min_range_value_def get_pathman_relation_info_def is_null_def array_read_def)
  have mx: "get_max_range_value cat parent_oid
      = (if ?rs = [] then Undefined_Behaviour else Returns (max_re (last ?rs)))"
    using cat up len
    by (simp add: get_max_range_value_def get_pathman_relation_info_def is_null_def array_read_def
        last_conv_nth nat_pred)
  show "(?rs \<noteq> [] \<longrightarrow>
        get_min_range_value cat parent_oid = Returns (min_re (?rs ! 0))
        \<and> get_max_range_value cat parent_oid = Returns (max_re (last ?rs)))
     \<and> (?rs = [] \<longrightarrow>
        get_min_range_value cat parent_oid = Undefined_Behaviour
        \<and> get_max_range_value cat parent_oid = Undefined_Behaviour)"
    by (simp add: mn mx)
qed

theorem global_min_max_amended_witness:
  "get_min_range_value (one_relation (range_prel three_ranges)) 16384 = Returns 0
   \<and> get_max_range_value (one_relation (range_prel three_ranges)) 16384 = Returns 40
   \<and> get_min_range_value (one_relation (range_prel [])) 16384 = Undefined_Behaviour
   \<and> get_max_range_value (one_relation (range_prel [])) 16384 = Undefined_Behaviour"
  using global_min_max_amended [of "one_relation (range_prel three_ranges)" 16384
      "range_prel three_ranges"]
    global_min_max_amended [of "one_relation (range_prel [])" 16384 "range_prel []"]
  by (simp add: get_pathman_relation_info_def one_relation_def range_prel_def three_ranges_def)



subsection \<open>Overlap\<close>

lemma overlap_loop_scan:
  "unat cnt = length rs \<Longrightarrow>
   overlap_loop cmp_func_1 cmp_func_2 p1 p2 rs cnt i
     = Returns (\<exists>j. i \<le> j \<and> j < length rs
          \<and> cmp_func_1 p1 (max_re (rs ! j)) < 0 \<and> cmp_func_2 p2 (min_re (rs ! j)) > 0)"
proof (induction cmp_func_1 cmp_func_2 p1 p2 rs cnt i rule: overlap_loop.induct)
  case (1 cmp_func_1 cmp_func_2 p1 p2 rs cnt i)
  show ?case
  proof (cases "i < length rs")
    case False
    then show ?thesis
      using "1.prems" by (subst overlap_loop.simps) auto
  next
    case True
    let ?hit = "cmp_func_1 p1 (max_re (rs ! i)) < 0 \<and> cmp_func_2 p2 (min_re (rs ! i)) > 0"
    have rd: "array_read rs (int i) = Some (rs ! i)"
      using True by (simp add: array_read_def)
    have unfold: "overlap_loop cmp_func_1 cmp_func_2 p1 p2 rs cnt i
        = (if ?hit then Returns True
           else overlap_loop cmp_func_1 cmp_func_2 p1 p2 rs cnt (Suc i))"
      using True "1.prems" rd by (subst overlap_loop.simps) (simp add: Let_def)
    show ?thesis
    proof (cases ?hit)
      case True
      with \<open>i < length rs\<close> show ?thesis
        by (auto simp: unfold)
    next
      case False
      have ih: "overlap_loop cmp_func_1 cmp_func_2 p1 p2 rs cnt (Suc i)
          = Returns (\<exists>j. Suc i \<le> j \<and> j < length rs
              \<and> cmp_func_1 p1 (max_re (rs ! j)) < 0 \<and> cmp_func_2 p2 (min_re (rs ! j)) > 0)"
        using "1.IH" [OF _ rd refl refl _ "1.prems"] \<open>i < length rs\<close> "1.prems" False by simp
      have shift: "(\<exists>j. Suc i \<le> j \<and> j < length rs
              \<and> cmp_func_1 p1 (max_re (rs ! j)) < 0 \<and> cmp_func_2 p2 (min_re (rs ! j)) > 0)
          = (\<exists>j. i \<le> j \<and> j < length rs
              \<and> cmp_func_1 p1 (max_re (rs ! j)) < 0 \<and> cmp_func_2 p2 (min_re (rs ! j)) > 0)"
        using False by (metis Suc_leD Suc_leI le_neq_implies_less)
      from False have "overlap_loop cmp_func_1 cmp_func_2 p1 p2 rs cnt i
          = overlap_loop cmp_func_1 cmp_func_2 p1 p2 rs cnt (Suc i)"
        by (simp only: unfold if_False)
      then show ?thesis
        by (simp only: ih shift)
    qed
  qed
qed


lemma cmp_agrees_positive: "cmp_agrees cmp \<Longrightarrow> (0 < cmp a b) = (b < a)"
proof -
  assume ag: "cmp_agrees cmp"
  have lt: "(cmp a b < 0) = (a < b)" and eq: "(cmp a b = 0) = (a = b)"
    using ag by (simp_all add: cmp_agrees_def)
  show "(0 < cmp a b) = (b < a)"
  proof
    assume "0 < cmp a b"
    then have "\<not> a < b" "a \<noteq> b" using lt eq by auto
    then show "b < a" by simp
  next
    assume "b < a"
    then have "\<not> cmp a b < 0" "cmp a b \<noteq> 0" using lt eq by auto
    then show "0 < cmp a b" by simp
  qed
qed

lemma cmp_agrees_linorder: "cmp_agrees cmp_linorder"
  by (simp add: cmp_agrees_def cmp_linorder_def)

lemma ex_index_set:
  "(\<exists>j. (0::nat) \<le> j \<and> j < length xs \<and> P (xs ! j)) = (\<exists>e \<in> set xs. P e)"
proof
  assume "\<exists>j. 0 \<le> j \<and> j < length xs \<and> P (xs ! j)"
  then obtain j where "j < length xs" "P (xs ! j)" by blast
  then show "\<exists>e \<in> set xs. P e" using nth_mem by blast
next
  assume "\<exists>e \<in> set xs. P e"
  then obtain j where "j < length xs" "P (xs ! j)" by (auto simp: in_set_conv_nth)
  then show "\<exists>j. 0 \<le> j \<and> j < length xs \<and> P (xs ! j)" by blast
qed

lemma check_overlap_scan:
  assumes "get_pathman_relation_info cat parent_oid = Some prel" and "unat (children_count prel) = length (ranges prel)"
  shows "check_overlap fill_cmp cat parent_oid p1 p1_type p2 p2_type
        = Returns (\<exists>e \<in> set (ranges prel).
              fill_cmp p1_type (atttype prel) p1 (max_re e) < 0
              \<and> 0 < fill_cmp p2_type (atttype prel) p2 (min_re e))"
proof -
  have "overlap_loop (fill_cmp p1_type (atttype prel)) (fill_cmp p2_type (atttype prel))
        p1 p2 (ranges prel) (children_count prel) 0
      = Returns (\<exists>e \<in> set (ranges prel).
            fill_cmp p1_type (atttype prel) p1 (max_re e) < 0
            \<and> 0 < fill_cmp p2_type (atttype prel) p2 (min_re e))"
    unfolding overlap_loop_scan [OF assms(2)]
    by (simp only: ex_index_set [where P = "\<lambda>e. fill_cmp p1_type (atttype prel) p1 (max_re e) < 0
            \<and> 0 < fill_cmp p2_type (atttype prel) p2 (min_re e)"])
  then show ?thesis
    using assms(1)
    by (simp add: check_overlap_def get_pathman_relation_info_def is_null_def)
qed

lemma three_ranges_descriptor:
  "get_pathman_relation_info (one_relation (range_prel three_ranges)) 16384
     = Some (range_prel three_ranges)"
  "unat (children_count (range_prel three_ranges)) = length (ranges (range_prel three_ranges))"
  by (simp_all add: get_pathman_relation_info_def one_relation_def range_prel_def three_ranges_def)


text \<open>
  C6. \<open>overlaps(probe_min, probe_max)\<close> is true iff some range entry has
  \<open>probe_min < max\<close> and \<open>probe_max > min\<close>, by the two comparison functions; against the
  ranges \<open>[0,10)\<close>, \<open>[10,20)\<close>, \<open>[30,40)\<close> the probe \<open>[20,30)\<close> gives false and \<open>[5,15)\<close>
  gives true.
\<close>

theorem check_overlap_iff:
  "(get_pathman_relation_info cat parent_oid = Some prel \<and> unat (children_count prel) = length (ranges prel) \<longrightarrow>
      check_overlap fill_cmp cat parent_oid p1 p1_type p2 p2_type
        = Returns (\<exists>e \<in> set (ranges prel).
              fill_cmp p1_type (atttype prel) p1 (max_re e) < 0
              \<and> 0 < fill_cmp p2_type (atttype prel) p2 (min_re e))
      \<and> (cmp_agrees (fill_cmp p1_type (atttype prel)) \<and> cmp_agrees (fill_cmp p2_type (atttype prel)) \<longrightarrow>
          check_overlap fill_cmp cat parent_oid p1 p1_type p2 p2_type
            = Returns (\<exists>e \<in> set (ranges prel). p1 < max_re e \<and> min_re e < p2)))
   \<and> check_overlap (\<lambda>a b. cmp_linorder) (one_relation (range_prel three_ranges)) 16384 20 23 30 23
        = Returns False
   \<and> check_overlap (\<lambda>a b. cmp_linorder) (one_relation (range_prel three_ranges)) 16384 5 23 15 23
        = Returns True"
proof (intro conjI impI)
  assume h: "get_pathman_relation_info cat parent_oid = Some prel \<and> unat (children_count prel) = length (ranges prel)"
  then show gen: "check_overlap fill_cmp cat parent_oid p1 p1_type p2 p2_type
        = Returns (\<exists>e \<in> set (ranges prel).
              fill_cmp p1_type (atttype prel) p1 (max_re e) < 0
              \<and> 0 < fill_cmp p2_type (atttype prel) p2 (min_re e))"
    by (simp add: check_overlap_scan)
  assume ag: "cmp_agrees (fill_cmp p1_type (atttype prel)) \<and> cmp_agrees (fill_cmp p2_type (atttype prel))"
  have "(fill_cmp p1_type (atttype prel) p1 b < 0) = (p1 < b)" for b
    using ag by (simp add: cmp_agrees_def)
  moreover have "(0 < fill_cmp p2_type (atttype prel) p2 b) = (b < p2)" for b
    using ag by (simp add: cmp_agrees_positive)
  ultimately show "check_overlap fill_cmp cat parent_oid p1 p1_type p2 p2_type
            = Returns (\<exists>e \<in> set (ranges prel). p1 < max_re e \<and> min_re e < p2)"
    using gen by simp
next
  show "check_overlap (\<lambda>a b. cmp_linorder) (one_relation (range_prel three_ranges)) 16384 20 23 30 23
        = Returns False"
    unfolding check_overlap_scan [OF three_ranges_descriptor]
    by (simp add: range_prel_def three_ranges_def cmp_linorder_def)
next
  show "check_overlap (\<lambda>a b. cmp_linorder) (one_relation (range_prel three_ranges)) 16384 5 23 15 23
        = Returns True"
    unfolding check_overlap_scan [OF three_ranges_descriptor]
    by (simp add: range_prel_def three_ranges_def cmp_linorder_def)
qed

theorem check_overlap_iff_witness:
  "check_overlap (\<lambda>a b. cmp_linorder) (one_relation (range_prel three_ranges)) 16384 35 23 60 23
      = Returns True
   \<and> check_overlap (\<lambda>a b. cmp_linorder) (one_relation (range_prel three_ranges)) 16384 40 23 50 23
      = Returns False"
  using check_overlap_iff [of "one_relation (range_prel three_ranges)" 16384
      "range_prel three_ranges" "\<lambda>a b. cmp_linorder" 35 23 60 23]
    check_overlap_iff [of "one_relation (range_prel three_ranges)" 16384
      "range_prel three_ranges" "\<lambda>a b. cmp_linorder" 40 23 50 23]
  by (simp add: get_pathman_relation_info_def one_relation_def range_prel_def three_ranges_def
      cmp_agrees_linorder cmp_linorder_def)


subsection \<open>A relation without descriptor\<close>

text \<open>
  C10. When the catalog has no descriptor for the relation,
  \<^verbatim>\<open>find_or_create_range_partition\<close> returns the SQL null and does nothing, while the
  bounds, minimum, maximum and overlap functions raise \<open>NotPartitioned\<close>.
\<close>

theorem no_descriptor_null_versus_error:
  "get_pathman_relation_info (pathman_config w) parent_oid = None \<longrightarrow>
     find_or_create_range_partition search create_partitions fill_cmp others parent_oid val value_type w
       = (Returns None, w)
     \<and> get_range_by_part_oid (pathman_config w) parent_oid child = Raises NotPartitioned
     \<and> get_range_by_idx (pathman_config w) parent_oid idx = Raises NotPartitioned
     \<and> get_min_range_value (pathman_config w) parent_oid = Raises NotPartitioned
     \<and> get_max_range_value (pathman_config w) parent_oid = Raises NotPartitioned
     \<and> check_overlap fill_cmp (pathman_config w) parent_oid p1 p1_type p2 p2_type = Raises NotPartitioned"
  by (simp add: find_or_create_range_partition_def get_range_by_part_oid_def get_range_by_idx_def
      get_min_range_value_def get_max_range_value_def check_overlap_def
      get_pathman_relation_info_def)

theorem no_descriptor_null_versus_error_witness:
  "get_pathman_relation_info (pathman_config (idle_backend (one_relation (range_prel three_ranges)))) 16385
     = None
   \<and> find_or_create_range_partition search_range_partition_eq new_child int_cmp id 16385 45 23
        (idle_backend (one_relation (range_prel three_ranges)))
       = (Returns None, idle_backend (one_relation (range_prel three_ranges)))
   \<and> get_range_by_part_oid (one_relation (range_prel three_ranges)) 16385 1001 = Raises NotPartitioned
   \<and> get_range_by_idx (one_relation (range_prel three_ranges)) 16385 0 = Raises NotPartitioned
   \<and> get_min_range_value (one_relation (range_prel three_ranges)) 16385 = Raises NotPartitioned
   \<and> get_max_range_value (one_relation (range_prel three_ranges)) 16385 = Raises NotPartitioned
   \<and> check_overlap int_cmp (one_relation (range_prel three_ranges)) 16385 5 23 15 23
       = Raises NotPartitioned"
  using no_descriptor_null_versus_error [of "idle_backend (one_relation (range_prel three_ranges))"
      16385 search_range_partition_eq new_child int_cmp id 45 23 1001 0 5 23 15 23]
  by (simp add: idle_backend_def one_relation_def get_pathman_relation_info_def)



subsection \<open>The binary search on sorted ranges\<close>

lemma ranges_sorted_tail: "ranges_sorted (e # rs) \<Longrightarrow> ranges_sorted rs"
  by (cases rs) simp_all

lemma ranges_sorted_proper:
  "ranges_sorted rs \<Longrightarrow> i < length rs \<Longrightarrow> min_re (rs ! i) < max_re (rs ! i)"
proof (induction rs arbitrary: i rule: ranges_sorted.induct)
  case 1
  then show ?case by simp
next
  case (2 e)
  then show ?case by simp
next
  case (3 e f rs)
  then show ?case by (cases i) simp_all
qed

lemma ranges_sorted_head:
  "ranges_sorted (e # rs) \<Longrightarrow> j < length rs \<Longrightarrow> max_re e \<le> min_re (rs ! j)"
proof (induction rs arbitrary: e j)
  case Nil
  then show ?case by simp
next
  case (Cons f rs)
  show ?case
  proof (cases j)
    case 0
    with Cons.prems show ?thesis by simp
  next
    case (Suc k)
    with Cons.prems have k: "k < length rs" by simp
    have "ranges_sorted (f # rs)" using Cons.prems by simp
    then have "max_re f \<le> min_re (rs ! k)" using k by (rule Cons.IH)
    moreover have "max_re e \<le> min_re f" using Cons.prems by simp
    moreover have "min_re f < max_re f"
      using ranges_sorted_proper [OF \<open>ranges_sorted (f # rs)\<close>, of 0] by simp
    ultimately show ?thesis using Suc by simp
  qed
qed

lemma ranges_sorted_apart:
  "ranges_sorted rs \<Longrightarrow> i < j \<Longrightarrow> j < length rs \<Longrightarrow> max_re (rs ! i) \<le> min_re (rs ! j)"
proof (induction rs arbitrary: i j)
  case Nil
  then show ?case by simp
next
  case (Cons e rs)
  show ?case
  proof (cases i)
    case 0
    then obtain k where j: "j = Suc k" using Cons.prems by (cases j) simp_all
    then have "k < length rs" using Cons.prems by simp
    with Cons.prems(1) have "max_re e \<le> min_re (rs ! k)" by (rule ranges_sorted_head)
    then show ?thesis using 0 j by simp
  next
    case (Suc i')
    then obtain k where j: "j = Suc k" using Cons.prems by (cases j) simp_all
    have "ranges_sorted rs" using Cons.prems(1) by (rule ranges_sorted_tail)
    moreover have "i' < k" "k < length rs" using Cons.prems Suc j by simp_all
    ultimately have "max_re (rs ! i') \<le> min_re (rs ! k)" by (rule Cons.IH)
    then show ?thesis using Suc j by simp
  qed
qed

lemma range_bsearch_gap:
  "cmp_agrees cmp \<Longrightarrow> ranges_sorted rs \<Longrightarrow> Suc i < length rs
    \<Longrightarrow> max_re (rs ! i) < v \<Longrightarrow> v < min_re (rs ! Suc i)
    \<Longrightarrow> lo \<le> Suc i \<Longrightarrow> Suc i \<le> hi \<Longrightarrow> hi \<le> length rs
    \<Longrightarrow> range_bsearch cmp v rs lo hi = Miss (Suc i)"
proof (induction cmp v rs lo hi rule: range_bsearch.induct)
  case (1 cmp v rs lo hi)
  note ag = \<open>cmp_agrees cmp\<close> and srt = \<open>ranges_sorted rs\<close>
  have lt: "(cmp a b < 0) = (a < b)" for a b
    using ag by (simp add: cmp_agrees_def)
  show ?case
  proof (cases "lo < hi")
    case False
    with "1.prems" have "lo = Suc i" by simp
    with False show ?thesis by (subst range_bsearch.simps) simp
  next
    case True
    define mid where "mid = (lo + hi) div 2"
    have mid: "lo \<le> mid" "mid < hi" using True by (simp_all add: mid_def)
    then have mlen: "mid < length rs" using "1.prems" by simp
    show ?thesis
    proof (cases "mid \<le> i")
      case True
      have "max_re (rs ! mid) \<le> max_re (rs ! i)"
      proof (cases "mid = i")
        case True
        then show ?thesis by simp
      next
        case False
        with \<open>mid \<le> i\<close> have "mid < i" by simp
        then have "max_re (rs ! mid) \<le> min_re (rs ! i)"
          using srt "1.prems" by (intro ranges_sorted_apart) simp_all
        moreover have "min_re (rs ! i) < max_re (rs ! i)"
          using srt "1.prems" by (intro ranges_sorted_proper) simp_all
        ultimately show ?thesis by simp
      qed
      then have above: "max_re (rs ! mid) < v" using "1.prems" by simp
      moreover have "min_re (rs ! mid) < max_re (rs ! mid)"
        using srt mlen by (rule ranges_sorted_proper)
      ultimately have "\<not> v < min_re (rs ! mid)" "\<not> v < max_re (rs ! mid)"
        by simp_all
      then have nl: "\<not> cmp v (min_re (rs ! mid)) < 0" and nr: "0 \<le> cmp v (max_re (rs ! mid))"
        using lt [of v "min_re (rs ! mid)"] lt [of v "max_re (rs ! mid)"] by linarith+
      have "range_bsearch cmp v rs (Suc mid) hi = Miss (Suc i)"
        using "1.IH"(2) [OF \<open>lo < hi\<close> mid_def nl nr ag srt] "1.prems" True mid
        by simp
      then show ?thesis
        using \<open>lo < hi\<close> nl nr unfolding mid_def
        by (subst range_bsearch.simps) (simp add: Let_def)
    next
      case False
      then have ge: "Suc i \<le> mid" by simp
      have "min_re (rs ! Suc i) \<le> min_re (rs ! mid)"
      proof (cases "mid = Suc i")
        case True
        then show ?thesis by simp
      next
        case False
        with ge have "Suc i < mid" by simp
        then have "max_re (rs ! Suc i) \<le> min_re (rs ! mid)"
          using srt mlen by (intro ranges_sorted_apart) simp_all
        moreover have "min_re (rs ! Suc i) < max_re (rs ! Suc i)"
          using srt "1.prems" by (intro ranges_sorted_proper) simp_all
        ultimately show ?thesis by simp
      qed
      then have "v < min_re (rs ! mid)" using "1.prems" by simp
      then have l: "cmp v (min_re (rs ! mid)) < 0"
        using lt [of v "min_re (rs ! mid)"] by simp
      have "range_bsearch cmp v rs lo mid = Miss (Suc i)"
        using "1.IH"(1) [OF \<open>lo < hi\<close> mid_def l ag srt] "1.prems" ge mlen
        by simp
      then show ?thesis
        using \<open>lo < hi\<close> l unfolding mid_def
        by (subst range_bsearch.simps) (simp add: Let_def)
    qed
  qed
qed


lemma search_gap:
  assumes "cmp_agrees cmp" and "ranges_sorted (ranges prel)" and "Suc i < length (ranges prel)"
    and "max_re (ranges prel ! i) < val" and "val < min_re (ranges prel ! Suc i)"
  shows "search_range_partition_eq val cmp prel = (SEARCH_RANGEREL_GAP, None)"
proof -
  have "range_bsearch cmp val (ranges prel) 0 (length (ranges prel)) = Miss (Suc i)"
    using assms by (intro range_bsearch_gap) simp_all
  then have "find_owner cmp (ranges prel) val = Gap i (Suc i)"
    using assms(3) by (simp add: find_owner_def)
  then show ?thesis
    by (simp add: search_range_partition_eq_def)
qed


subsection \<open>A value in a gap\<close>

text \<open>
  C2. For every relation whose ranges are sorted and every value strictly between two
  neighbouring range entries, \<^verbatim>\<open>find_or_create_range_partition\<close> returns the SQL null and
  leaves the backend as it was: no lock is taken and the creation delegate is not called.
\<close>

theorem gap_lookup_returns_null:
  "get_pathman_relation_info (pathman_config w) parent_oid = Some prel
   \<and> cmp_agrees (fill_cmp value_type (atttype prel))
   \<and> ranges_sorted (ranges prel)
   \<and> Suc i < length (ranges prel)
   \<and> max_re (ranges prel ! i) < val \<and> val < min_re (ranges prel ! Suc i)
   \<longrightarrow> find_or_create_range_partition search_range_partition_eq create_partitions fill_cmp others
         parent_oid val value_type w
       = (Returns None, w)"
proof
  assume h: "get_pathman_relation_info (pathman_config w) parent_oid = Some prel
   \<and> cmp_agrees (fill_cmp value_type (atttype prel))
   \<and> ranges_sorted (ranges prel)
   \<and> Suc i < length (ranges prel)
   \<and> max_re (ranges prel ! i) < val \<and> val < min_re (ranges prel ! Suc i)"
  then have "search_range_partition_eq val (fill_cmp value_type (atttype prel)) prel
      = (SEARCH_RANGEREL_GAP, None)"
    by (intro search_gap [where i = i]) simp_all
  with h show "find_or_create_range_partition search_range_partition_eq create_partitions fill_cmp
      others parent_oid val value_type w = (Returns None, w)"
    by (simp add: find_or_create_range_partition_def)
qed

lemma three_ranges_sorted: "ranges_sorted three_ranges"
  by (simp add: three_ranges_def)

theorem gap_lookup_returns_null_witness:
  "find_or_create_range_partition search_range_partition_eq new_child int_cmp registers_second
       16384 25 23 (idle_backend (one_relation (range_prel three_ranges)))
     = (Returns None, idle_backend (one_relation (range_prel three_ranges)))"
  using gap_lookup_returns_null [of "idle_backend (one_relation (range_prel three_ranges))" 16384
      "range_prel three_ranges" int_cmp 23 1 25 new_child registers_second]
  by (simp add: idle_backend_def get_pathman_relation_info_def one_relation_def range_prel_def
      int_cmp_def cmp_agrees_linorder three_ranges_sorted) (simp add: three_ranges_def)



subsection \<open>The coordinator, path by path\<close>

text \<open>
  Both searches of \<^verbatim>\<open>find_or_create_range_partition\<close> have the same arguments, so the
  second answers as the first did. What is left of the function is one case per answer of
  the first search; once the locks are taken, the creation delegate is always called.
\<close>

lemma locks_released [simp]:
  "remove1 edit_partitions_lock
     (remove1 load_config_lock (edit_partitions_lock # load_config_lock # held)) = held"
  by simp

lemma coordinator_cases:
  "find_or_create_range_partition search create_partitions fill_cmp others parent_oid val value_type w
     = (case get_pathman_relation_info (pathman_config w) parent_oid of
          None \<Rightarrow> (Returns None, w)
        | Some prel \<Rightarrow>
            (case search val (fill_cmp value_type (atttype prel)) prel of
               (SEARCH_RANGEREL_FOUND, written) \<Rightarrow> (return_child_oid written, w)
             | (SEARCH_RANGEREL_GAP, written) \<Rightarrow> (Returns None, w)
             | (SEARCH_RANGEREL_OUT_OF_RANGE, written) \<Rightarrow>
                 (case create_partitions parent_oid val value_type (others (others (pathman_config w))) of
                    Inl e \<Rightarrow>
                      (Raises e,
                       w\<lparr>pathman_config := others (others (pathman_config w)),
                         held_lwlocks := edit_partitions_lock # load_config_lock # held_lwlocks w,
                         trace := trace w @ [Acquire load_config_lock, Acquire edit_partitions_lock,
                           Create_partitions parent_oid val value_type]\<rparr>)
                  | Inr (child, cat') \<Rightarrow>
                      (Returns (Some child),
                       w\<lparr>pathman_config := cat',
                         trace := trace w @ [Acquire load_config_lock, Acquire edit_partitions_lock,
                           Create_partitions parent_oid val value_type,
                           Release load_config_lock, Release edit_partitions_lock]\<rparr>))))"
  by (simp add: find_or_create_range_partition_def create_partitions_call_def LWLockAcquire_def
      LWLockRelease_def write_rentry_def Let_def
      split: option.splits prod.splits search_rangerel_result.splits sum.splits)


lemma reprobe_never_found:
  "find_or_create_range_partition search create_partitions fill_cmp others parent_oid val value_type w
     = (r, w')
   \<Longrightarrow> Acquire load_config_lock \<in> set (trace w') - set (trace w)
   \<Longrightarrow> Create_partitions parent_oid val value_type \<in> set (trace w')"
  by (auto simp: coordinator_cases
      split: option.splits prod.splits search_rangerel_result.splits sum.splits)


text \<open>Concrete searches and runs, on the relation 16384.\<close>

lemma search_three_45:
  "search_range_partition_eq 45 (int_cmp 23 23) (range_prel three_ranges)
     = (SEARCH_RANGEREL_OUT_OF_RANGE, None)"
  by (simp add: search_range_partition_eq_def find_owner_def range_bsearch.simps Let_def
      range_prel_def three_ranges_def two_ranges_def one_range_def int_cmp_def cmp_linorder_def)

lemma search_three_25:
  "search_range_partition_eq 25 (int_cmp 23 23) (range_prel three_ranges)
     = (SEARCH_RANGEREL_GAP, None)"
  by (simp add: search_range_partition_eq_def find_owner_def range_bsearch.simps Let_def
      range_prel_def three_ranges_def int_cmp_def cmp_linorder_def)

lemma search_one_15:
  "search_range_partition_eq 15 (int_cmp 23 23) (range_prel one_range)
     = (SEARCH_RANGEREL_OUT_OF_RANGE, None)"
  by (simp add: search_range_partition_eq_def find_owner_def range_bsearch.simps Let_def
      range_prel_def three_ranges_def two_ranges_def one_range_def int_cmp_def cmp_linorder_def)

lemma search_two_15:
  "search_range_partition_eq 15 (int_cmp 23 23) (range_prel two_ranges)
     = (SEARCH_RANGEREL_FOUND, Some \<lparr>child_oid = 1002, min_re = 10, max_re = 20\<rparr>)"
  by (simp add: search_range_partition_eq_def find_owner_def range_bsearch.simps Let_def
      range_prel_def three_ranges_def two_ranges_def one_range_def int_cmp_def cmp_linorder_def)

lemma idle_backend_fields:
  "pathman_config (idle_backend cat) = cat"
  "held_lwlocks (idle_backend cat) = []"
  "trace (idle_backend cat) = []"
  by (simp_all add: idle_backend_def)

lemma idle_three_descriptor:
  "get_pathman_relation_info
      (pathman_config (idle_backend (one_relation (range_prel three_ranges)))) 16384
        = Some (range_prel three_ranges)"
  "atttype (range_prel three_ranges) = 23"
  by (simp_all add: get_pathman_relation_info_def idle_backend_def one_relation_def range_prel_def)

lemma run_failing_ddl:
  "find_or_create_range_partition search_range_partition_eq failing_ddl int_cmp id
       16384 45 23 (idle_backend (one_relation (range_prel three_ranges)))
     = (Raises DdlError,
        \<lparr>pathman_config = one_relation (range_prel three_ranges),
         held_lwlocks = [edit_partitions_lock, load_config_lock],
         trace = [Acquire load_config_lock, Acquire edit_partitions_lock,
                  Create_partitions 16384 45 23]\<rparr>)"
  using idle_three_descriptor
  by (simp add: coordinator_cases search_three_45 failing_ddl_def idle_backend_def)

lemma run_new_child:
  "find_or_create_range_partition search_range_partition_eq new_child int_cmp id
       16384 45 23 (idle_backend (one_relation (range_prel three_ranges)))
     = (Returns (Some 2000),
        \<lparr>pathman_config = one_relation (range_prel three_ranges),
         held_lwlocks = [],
         trace = [Acquire load_config_lock, Acquire edit_partitions_lock,
                  Create_partitions 16384 45 23,
                  Release load_config_lock, Release edit_partitions_lock]\<rparr>)"
  using idle_three_descriptor
  by (simp add: coordinator_cases search_three_45 new_child_def idle_backend_def)


subsection \<open>The re-probe\<close>

text \<open>
  C3. The claim: after both locks are acquired the search is re-run against a freshly
  loaded descriptor, and a partition found now is returned without a call of the creation
  delegate. The run below starts with the single range \<open>[0,10)\<close> and the value 15; while
  the backend waits for the locks, another backend registers \<open>[10,20)\<close> as child 1002. The
  source searches the descriptor it read before the locks again, calls the delegate and
  returns the delegate's child 2000, although a search of the catalog as it is at that
  moment finds the owner 1002.
\<close>

theorem reprobe_on_stale_descriptor:
  "find_or_create_range_partition search_range_partition_eq new_child int_cmp registers_second
       16384 15 23 (idle_backend (one_relation (range_prel one_range)))
     = (Returns (Some 2000),
        \<lparr>pathman_config = one_relation (range_prel two_ranges),
         held_lwlocks = [],
         trace = [Acquire load_config_lock, Acquire edit_partitions_lock,
                  Create_partitions 16384 15 23,
                  Release load_config_lock, Release edit_partitions_lock]\<rparr>)
   \<and> search_range_partition_eq 15 (int_cmp 23 23) (range_prel two_ranges)
     = (SEARCH_RANGEREL_FOUND, Some \<lparr>child_oid = 1002, min_re = 10, max_re = 20\<rparr>)"
proof -
  have "get_pathman_relation_info
      (pathman_config (idle_backend (one_relation (range_prel one_range)))) 16384
        = Some (range_prel one_range)"
    by (simp add: get_pathman_relation_info_def idle_backend_def one_relation_def)
  moreover have "atttype (range_prel one_range) = 23"
    by (simp add: range_prel_def)
  ultimately show ?thesis
    by (simp add: coordinator_cases search_one_15 search_two_15 new_child_def
        registers_second_def idle_backend_def)
qed


subsection \<open>Two racing callers\<close>

lemma racer_start_descriptor:
  "get_pathman_relation_info (pathman_config racer_start) 16384 = Some (range_prel one_range)"
  "atttype (range_prel one_range) = 23"
  by (simp_all add: racer_start_def get_pathman_relation_info_def idle_backend_def one_relation_def
      range_prel_def)

lemma numbering_first:
  "numbering_ddl 16384 15 23 (one_relation (range_prel one_range))
     = Inr (2001, (one_relation (range_prel one_range))(16384 \<mapsto>
         \<lparr>parttype = PT_RANGE, atttype = 23, children_count = 2,
          ranges = [\<lparr>child_oid = 1001, min_re = 0, max_re = 10\<rparr>,
                    \<lparr>child_oid = 2001, min_re = 10, max_re = 20\<rparr>]\<rparr>))"
  by (simp add: numbering_ddl_def one_relation_def range_prel_def one_range_def)

lemma racer_A_run:
  "racer_A = (Returns (Some 2001),
      \<lparr>pathman_config = (one_relation (range_prel one_range))(16384 \<mapsto>
         \<lparr>parttype = PT_RANGE, atttype = 23, children_count = 2,
          ranges = [\<lparr>child_oid = 1001, min_re = 0, max_re = 10\<rparr>,
                    \<lparr>child_oid = 2001, min_re = 10, max_re = 20\<rparr>]\<rparr>),
       held_lwlocks = [],
       trace = [Acquire load_config_lock, Acquire edit_partitions_lock,
                Create_partitions 16384 15 23,
                Release load_config_lock, Release edit_partitions_lock]\<rparr>)"
  unfolding racer_A_def
  using racer_start_descriptor
  by (simp add: coordinator_cases search_one_15 numbering_first racer_start_def idle_backend_def)

lemma search_after_A:
  "search_range_partition_eq 15 (int_cmp 23 23)
      \<lparr>parttype = PT_RANGE, atttype = 23, children_count = 2,
          ranges = [\<lparr>child_oid = 1001, min_re = 0, max_re = 10\<rparr>,
                    \<lparr>child_oid = 2001, min_re = 10, max_re = 20\<rparr>]\<rparr>
     = (SEARCH_RANGEREL_FOUND, Some \<lparr>child_oid = 2001, min_re = 10, max_re = 20\<rparr>)"
  by (simp add: search_range_partition_eq_def find_owner_def range_bsearch.simps Let_def
      int_cmp_def cmp_linorder_def)

text \<open>
  C1. The claim: callers racing on the same gap cause exactly one call of the creation
  delegate and all receive the same child. Caller A calls the delegate and returns its
  child 2001, registered as the owner of \<open>[10,20)\<close>. Caller B, whose descriptor is still the
  one it read before the locks, calls the delegate as well and returns the child 2002 of
  that second call, although a search of the catalog A left finds the owner 2001.
\<close>

theorem racing_callers_both_create:
  "fst racer_A = Returns (Some 2001)
   \<and> trace (snd racer_A)
       = [Acquire load_config_lock, Acquire edit_partitions_lock, Create_partitions 16384 15 23,
          Release load_config_lock, Release edit_partitions_lock]
   \<and> get_pathman_relation_info (pathman_config (snd racer_A)) 16384
       = Some \<lparr>parttype = PT_RANGE, atttype = 23, children_count = 2,
          ranges = [\<lparr>child_oid = 1001, min_re = 0, max_re = 10\<rparr>,
                    \<lparr>child_oid = 2001, min_re = 10, max_re = 20\<rparr>]\<rparr>
   \<and> search_range_partition_eq 15 (int_cmp 23 23)
        \<lparr>parttype = PT_RANGE, atttype = 23, children_count = 2,
          ranges = [\<lparr>child_oid = 1001, min_re = 0, max_re = 10\<rparr>,
                    \<lparr>child_oid = 2001, min_re = 10, max_re = 20\<rparr>]\<rparr>
       = (SEARCH_RANGEREL_FOUND, Some \<lparr>child_oid = 2001, min_re = 10, max_re = 20\<rparr>)
   \<and> fst racer_B = Returns (Some 2002)
   \<and> trace (snd racer_B)
       = [Acquire load_config_lock, Acquire edit_partitions_lock, Create_partitions 16384 15 23,
          Release load_config_lock, Release edit_partitions_lock]"
proof -
  have b: "fst racer_B = Returns (Some 2002) \<and> trace (snd racer_B)
       = [Acquire load_config_lock, Acquire edit_partitions_lock, Create_partitions 16384 15 23,
          Release load_config_lock, Release edit_partitions_lock]"
    unfolding racer_B_def
    using racer_start_descriptor
    by (simp add: coordinator_cases search_one_15 racer_A_run numbering_ddl_def racer_start_def
        idle_backend_def)
  show ?thesis
    using b by (simp add: racer_A_run search_after_A get_pathman_relation_info_def)
qed



subsection \<open>Locks and failures of the delegate\<close>

text \<open>
  C4, as stated: both locks are released on every exit path, and an error of the delegate
  reaches the caller only after that. When \<^verbatim>\<open>create_partitions\<close> fails, the two
  \<^verbatim>\<open>LWLockRelease\<close> calls after it are not reached: the error leaves the function with
  both locks held.
\<close>

theorem lock_release_counterexample:
  "fst (find_or_create_range_partition search_range_partition_eq failing_ddl int_cmp id
       16384 45 23 (idle_backend (one_relation (range_prel three_ranges))))
     = Raises DdlError
   \<and> held_lwlocks (snd (find_or_create_range_partition search_range_partition_eq failing_ddl
       int_cmp id 16384 45 23 (idle_backend (one_relation (range_prel three_ranges)))))
     = [edit_partitions_lock, load_config_lock]"
  by (simp add: run_failing_ddl)


text \<open>
  C4, amended. When the delegate is reached and fails, \<^verbatim>\<open>find_or_create_range_partition\<close>
  raises the delegate's error with both locks still held and no release event. When the
  delegate returns a child, both locks are released before the child is returned. On the
  paths that do not reach the delegate (no descriptor, or a search that answers found or
  gap) the backend is left as it was. Conversely, a call that does not raise ends with the
  locks it started with, and a call raises only the delegate's error, with both locks held.
\<close>

theorem lock_release_amended:
  "(get_pathman_relation_info (pathman_config w) parent_oid = Some prel
      \<and> fst (search val (fill_cmp value_type (atttype prel)) prel) = SEARCH_RANGEREL_OUT_OF_RANGE
      \<and> create_partitions parent_oid val value_type (others (others (pathman_config w))) = Inl e
    \<longrightarrow> find_or_create_range_partition search create_partitions fill_cmp others
          parent_oid val value_type w
        = (Raises e,
           w\<lparr>pathman_config := others (others (pathman_config w)),
             held_lwlocks := edit_partitions_lock # load_config_lock # held_lwlocks w,
             trace := trace w @ [Acquire load_config_lock, Acquire edit_partitions_lock,
               Create_partitions parent_oid val value_type]\<rparr>))
   \<and> (get_pathman_relation_info (pathman_config w) parent_oid = Some prel
      \<and> fst (search val (fill_cmp value_type (atttype prel)) prel) = SEARCH_RANGEREL_OUT_OF_RANGE
      \<and> create_partitions parent_oid val value_type (others (others (pathman_config w)))
          = Inr (child, cat')
    \<longrightarrow> fst (find_or_create_range_partition search create_partitions fill_cmp others
          parent_oid val value_type w) = Returns (Some child)
        \<and> held_lwlocks (snd (find_or_create_range_partition search create_partitions fill_cmp
             others parent_oid val value_type w)) = held_lwlocks w
        \<and> trace (snd (find_or_create_range_partition search create_partitions fill_cmp
             others parent_oid val value_type w))
          = trace w @ [Acquire load_config_lock, Acquire edit_partitions_lock,
               Create_partitions parent_oid val value_type,
               Release load_config_lock, Release edit_partitions_lock])
   \<and> (get_pathman_relation_info (pathman_config w) parent_oid = None
        \<or> (get_pathman_relation_info (pathman_config w) parent_oid = Some prel
            \<and> fst (search val (fill_cmp value_type (atttype prel)) prel)
                \<noteq> SEARCH_RANGEREL_OUT_OF_RANGE)
    \<longrightarrow> snd (find_or_create_range_partition search create_partitions fill_cmp others
          parent_oid val value_type w) = w
        \<and> (\<forall>e'. fst (find_or_create_range_partition search create_partitions fill_cmp others
              parent_oid val value_type w) \<noteq> Raises e'))
   \<and> (find_or_create_range_partition search create_partitions fill_cmp others
          parent_oid val value_type w = (r, w')
    \<longrightarrow> ((\<forall>e'. r \<noteq> Raises e') \<longrightarrow> held_lwlocks w' = held_lwlocks w)
        \<and> (\<forall>e'. r = Raises e' \<longrightarrow>
              create_partitions parent_oid val value_type (others (others (pathman_config w)))
                = Inl e'
              \<and> held_lwlocks w' = edit_partitions_lock # load_config_lock # held_lwlocks w))"
  by (auto simp: coordinator_cases return_child_oid_def
      split: option.splits prod.splits search_rangerel_result.splits sum.splits)

theorem lock_release_amended_witness:
  "find_or_create_range_partition search_range_partition_eq failing_ddl int_cmp id
       16384 45 23 (idle_backend (one_relation (range_prel three_ranges)))
     = (Raises DdlError,
        \<lparr>pathman_config = one_relation (range_prel three_ranges),
         held_lwlocks = [edit_partitions_lock, load_config_lock],
         trace = [Acquire load_config_lock, Acquire edit_partitions_lock,
                  Create_partitions 16384 45 23]\<rparr>)
   \<and> fst (find_or_create_range_partition search_range_partition_eq new_child int_cmp id
       16384 45 23 (idle_backend (one_relation (range_prel three_ranges))))
     = Returns (Some 2000)
   \<and> held_lwlocks (snd (find_or_create_range_partition search_range_partition_eq new_child
       int_cmp id 16384 45 23 (idle_backend (one_relation (range_prel three_ranges))))) = []
   \<and> trace (snd (find_or_create_range_partition search_range_partition_eq new_child
       int_cmp id 16384 45 23 (idle_backend (one_relation (range_prel three_ranges)))))
     = [Acquire load_config_lock, Acquire edit_partitions_lock, Create_partitions 16384 45 23,
        Release load_config_lock, Release edit_partitions_lock]
   \<and> snd (find_or_create_range_partition search_range_partition_eq new_child int_cmp id
       16384 25 23 (idle_backend (one_relation (range_prel three_ranges))))
     = idle_backend (one_relation (range_prel three_ranges))"
  using
    lock_release_amended [where w = "idle_backend (one_relation (range_prel three_ranges))"
      and parent_oid = 16384 and prel = "range_prel three_ranges"
      and search = search_range_partition_eq and val = 45 and fill_cmp = int_cmp
      and value_type = 23 and create_partitions = failing_ddl and others = id
      and e = DdlError and child = 2000 and cat' = "one_relation (range_prel three_ranges)"
      and r = "Raises DdlError"
      and w' = "\<lparr>pathman_config = one_relation (range_prel three_ranges),
         held_lwlocks = [edit_partitions_lock, load_config_lock],
         trace = [Acquire load_config_lock, Acquire edit_partitions_lock,
                  Create_partitions 16384 45 23]\<rparr>"]
    lock_release_amended [where w = "idle_backend (one_relation (range_prel three_ranges))"
      and parent_oid = 16384 and prel = "range_prel three_ranges"
      and search = search_range_partition_eq and val = 45 and fill_cmp = int_cmp
      and value_type = 23 and create_partitions = new_child and others = id
      and e = DdlError and child = 2000 and cat' = "one_relation (range_prel three_ranges)"
      and r = "Returns (Some 2000)"
      and w' = "snd (find_or_create_range_partition search_range_partition_eq new_child
        int_cmp id 16384 45 23 (idle_backend (one_relation (range_prel three_ranges))))"]
    lock_release_amended [where w = "idle_backend (one_relation (range_prel three_ranges))"
      and parent_oid = 16384 and prel = "range_prel three_ranges"
      and search = search_range_partition_eq and val = 25 and fill_cmp = int_cmp
      and value_type = 23 and create_partitions = new_child and others = id
      and e = DdlError and child = 2000 and cat' = "one_relation (range_prel three_ranges)"
      and r = "Returns None"
      and w' = "idle_backend (one_relation (range_prel three_ranges))"]
    idle_three_descriptor
  by (simp add: search_three_45 search_three_25 failing_ddl_def new_child_def idle_backend_fields)


subsection \<open>The order of the releases\<close>

text \<open>
  C9, as stated: on the successful creation path \<open>edit_lock\<close> is released first and
  \<open>config_lock\<close> second. The source releases \<^verbatim>\<open>load_config_lock\<close> first, while
  \<^verbatim>\<open>edit_partitions_lock\<close> is still held.
\<close>

theorem release_order_counterexample:
  "fst (find_or_create_range_partition search_range_partition_eq new_child int_cmp id
       16384 45 23 (idle_backend (one_relation (range_prel three_ranges))))
     = Returns (Some 2000)
   \<and> trace (snd (find_or_create_range_partition search_range_partition_eq new_child int_cmp id
       16384 45 23 (idle_backend (one_relation (range_prel three_ranges)))))
     = [Acquire load_config_lock, Acquire edit_partitions_lock, Create_partitions 16384 45 23,
        Release load_config_lock, Release edit_partitions_lock]"
  by (simp add: run_new_child)


text \<open>
  C9, amended. On the successful creation path (a descriptor exists, the search answers
  out of range, the delegate returns a child) the events are: acquire
  \<^verbatim>\<open>load_config_lock\<close>, acquire \<^verbatim>\<open>edit_partitions_lock\<close>, call the delegate, release
  \<^verbatim>\<open>load_config_lock\<close>, release \<^verbatim>\<open>edit_partitions_lock\<close>; then the new child is returned.
\<close>

theorem release_order_amended:
  "get_pathman_relation_info (pathman_config w) parent_oid = Some prel
   \<and> fst (search val (fill_cmp value_type (atttype prel)) prel) = SEARCH_RANGEREL_OUT_OF_RANGE
   \<and> create_partitions parent_oid val value_type (others (others (pathman_config w)))
       = Inr (child, cat')
   \<longrightarrow> find_or_create_range_partition search create_partitions fill_cmp others
         parent_oid val value_type w
       = (Returns (Some child),
          w\<lparr>pathman_config := cat',
            trace := trace w @ [Acquire load_config_lock, Acquire edit_partitions_lock,
              Create_partitions parent_oid val value_type,
              Release load_config_lock, Release edit_partitions_lock]\<rparr>)"
  by (auto simp: coordinator_cases
      split: option.splits prod.splits search_rangerel_result.splits sum.splits)


theorem release_order_amended_witness:
  "find_or_create_range_partition search_range_partition_eq new_child int_cmp registers_second
       16384 15 23 (idle_backend (one_relation (range_prel one_range)))
     = (Returns (Some 2000),
        \<lparr>pathman_config = one_relation (range_prel two_ranges),
         held_lwlocks = [],
         trace = [Acquire load_config_lock, Acquire edit_partitions_lock,
                  Create_partitions 16384 15 23,
                  Release load_config_lock, Release edit_partitions_lock]\<rparr>)"
  using release_order_amended [of "idle_backend (one_relation (range_prel one_range))" 16384
      "range_prel one_range" search_range_partition_eq 15 int_cmp 23 new_child registers_second
      2000 "one_relation (range_prel two_ranges)"]
    search_one_15
  by (simp add: get_pathman_relation_info_def idle_backend_def one_relation_def new_child_def
      registers_second_def range_prel_def)


end
